theory Spec2Isabelle
  imports Main
begin

section \<open>The employee record index (EmployeesServiceMap.ts)\<close>

text \<open>
  The class \<open>EmployeesServiceMap\<close> keeps a JavaScript \<open>Map<string, Employee>\<close> and a
  boolean. Every method is translated into a function that takes the object's state and
  returns the result together with the state afterwards; a \<open>throw\<close> is the left
  injection of the result. Records are values here: each call is given an object of its
  own (as the controller does with a freshly parsed request body), so that no two keys
  share one object.
\<close>

subsection \<open>Data\<close>

text \<open>
  Modelled from the spec: the declaration of \<open>Employee\<close>
  (\<open>model/dtoTypes/Employee.ts\<close>) is not among the sources. The fields are those of the
  data model: \<open>id\<close>, \<open>fullName\<close>, \<open>avatar\<close> (optional), \<open>department\<close>, \<open>birthDate\<close> and
  \<open>salary\<close>. The identity may be missing on the way in (\<open>empl.id ?? uuidv4()\<close>), so it
  is an option. The birth date and the salary are only stored and copied; the service never
  computes with them.
\<close>

record employee =
  emp_id :: "string option"
  fullName :: string
  avatar :: "string option"
  department :: string
  birthDate :: string
  salary :: int

text \<open>
  \<open>Partial<Employee>\<close>: every field may be absent (\<open>None\<close>) or present with a value of
  the field's type.
\<close>

record employee_patch =
  p_id :: "string option option"
  p_fullName :: "string option"
  p_avatar :: "string option option"
  p_department :: "string option"
  p_birthDate :: "string option"
  p_salary :: "int option"

datatype error = AlreadyExistsError string | NotFoundError string

text \<open>
  The private fields \<open>_employees\<close> and \<open>_isUpdated\<close>. A JavaScript \<open>Map\<close> iterates in
  insertion order and holds each key once: it is a list of key/value pairs.
\<close>

record service =
  employees :: "(string \<times> employee) list"
  isUpdated_fld :: bool

subsection \<open>The operations of a JavaScript Map\<close>

definition map_get :: "string \<Rightarrow> (string \<times> 'v) list \<Rightarrow> 'v option" where
  "map_get k m = map_of m k"

definition map_has :: "string \<Rightarrow> (string \<times> 'v) list \<Rightarrow> bool" where
  "map_has k m = (map_get k m \<noteq> None)"

text \<open>\<open>Map.set\<close> overwrites the value of a key in place and appends a new key at the end.\<close>

fun map_set :: "string \<Rightarrow> 'v \<Rightarrow> (string \<times> 'v) list \<Rightarrow> (string \<times> 'v) list" where
  "map_set k v [] = [(k, v)]"
| "map_set k v ((k', v') # m) = (if k' = k then (k, v) # m else (k', v') # map_set k v m)"

definition map_delete :: "string \<Rightarrow> (string \<times> 'v) list \<Rightarrow> (string \<times> 'v) list" where
  "map_delete k m = filter (\<lambda>kv. fst kv \<noteq> k) m"

definition map_values :: "(string \<times> 'v) list \<Rightarrow> 'v list" where
  "map_values m = map snd m"

text \<open>Truthiness of a value of type \<open>string | undefined\<close>: defined and not empty.\<close>

fun truthy :: "string option \<Rightarrow> bool" where
  "truthy None = False"
| "truthy (Some s) = (s \<noteq> [])"

subsection \<open>The methods\<close>

text \<open>
  \<open>_fillEmployeeMap\<close>: the map is cleared, then the loop stores every employee with a
  truthy \<open>id\<close> under that \<open>id\<close>; the others are only logged.
\<close>

fun fill_loop :: "employee list \<Rightarrow> (string \<times> employee) list \<Rightarrow> (string \<times> employee) list" where
  "fill_loop [] m = m"
| "fill_loop (e # es) m =
     (if truthy (emp_id e) then fill_loop es (map_set (the (emp_id e)) e m)
      else fill_loop es m)"

definition fillEmployeeMap :: "employee list \<Rightarrow> service \<Rightarrow> service" where
  "fillEmployeeMap emps s = s\<lparr>employees := fill_loop emps []\<rparr>"

text \<open>
  The constructor: \<open>loaded\<close> is what \<open>fileStorage.loadEmployees()\<close> returned.
\<close>

definition EmployeesServiceMap :: "bool \<Rightarrow> employee list \<Rightarrow> service" where
  "EmployeesServiceMap isUpd loaded =
     fillEmployeeMap loaded \<lparr>employees = [], isUpdated_fld = isUpd\<rparr>"

text \<open>The operator \<open>??\<close>: the right operand only when the left one is null or undefined.\<close>

fun nullish :: "'a option \<Rightarrow> 'a \<Rightarrow> 'a" where
  "nullish None d = d"
| "nullish (Some v) d = v"

text \<open>
  \<open>addEmployee\<close>: \<open>uuid\<close> is the string \<open>uuidv4()\<close> returns when it is called, which is
  only when the employee has no \<open>id\<close>.
\<close>

definition addEmployee :: "string \<Rightarrow> employee \<Rightarrow> service \<Rightarrow> (error + employee) \<times> service" where
  "addEmployee uuid empl s =
     (let k = nullish (emp_id empl) uuid in
      if map_has k (employees s) then (Inl (AlreadyExistsError k), s)
      else
        (let empl' = empl\<lparr>emp_id := Some k\<rparr> in
         (Inr empl', s\<lparr>employees := map_set k empl' (employees s), isUpdated_fld := True\<rparr>)))"

definition getAll :: "string option \<Rightarrow> service \<Rightarrow> employee list" where
  "getAll dep s =
     (let all = map_values (employees s) in
      if truthy dep then filter (\<lambda>empl. department empl = the dep) all else all)"

text \<open>\<open>_getById\<close>: a stored value is an object, hence truthy; only a missing key throws.\<close>

definition getById :: "string \<Rightarrow> service \<Rightarrow> error + employee" where
  "getById k s =
     (case map_get k (employees s) of
        None \<Rightarrow> Inl (NotFoundError k)
      | Some existing \<Rightarrow> Inr existing)"

text \<open>
  \<open>Object.assign(existing, empl)\<close> copies every property the patch has over the stored
  object, the \<open>id\<close> among them.
\<close>

definition Object_assign :: "employee \<Rightarrow> employee_patch \<Rightarrow> employee" where
  "Object_assign e p =
     \<lparr>emp_id = (case p_id p of None \<Rightarrow> emp_id e | Some v \<Rightarrow> v),
      fullName = (case p_fullName p of None \<Rightarrow> fullName e | Some v \<Rightarrow> v),
      avatar = (case p_avatar p of None \<Rightarrow> avatar e | Some v \<Rightarrow> v),
      department = (case p_department p of None \<Rightarrow> department e | Some v \<Rightarrow> v),
      birthDate = (case p_birthDate p of None \<Rightarrow> birthDate e | Some v \<Rightarrow> v),
      salary = (case p_salary p of None \<Rightarrow> salary e | Some v \<Rightarrow> v)\<rparr>"

text \<open>
  \<open>updateEmployee\<close>: the stored object is changed in place, so the entry of the key holds
  the merged record afterwards, at the position it had.
\<close>

definition updateEmployee :: "string \<Rightarrow> employee_patch \<Rightarrow> service \<Rightarrow> (error + employee) \<times> service" where
  "updateEmployee k empl s =
     (case getById k s of
        Inl e \<Rightarrow> (Inl e, s)
      | Inr existing \<Rightarrow>
          (let existing' = Object_assign existing empl in
           (Inr existing',
            s\<lparr>employees := map_set k existing' (employees s), isUpdated_fld := True\<rparr>)))"

definition deleteEmployee :: "string \<Rightarrow> service \<Rightarrow> (error + employee) \<times> service" where
  "deleteEmployee k s =
     (case getById k s of
        Inl e \<Rightarrow> (Inl e, s)
      | Inr existing \<Rightarrow>
          (Inr existing, s\<lparr>employees := map_delete k (employees s), isUpdated_fld := True\<rparr>))"

definition toArray :: "service \<Rightarrow> employee list" where
  "toArray s = map_values (employees s)"

definition isUpdated :: "service \<Rightarrow> bool \<times> service" where
  "isUpdated s = (isUpdated_fld s, s)"

subsection \<open>The invariant of the data model\<close>

text \<open>
  Every key occurs once (what a \<open>Map\<close> guarantees), and every record is stored under its
  own, non-empty \<open>id\<close>. The weaker \<open>stored_under_id\<close> leaves the empty key in.
\<close>

definition stored_under_id :: "(string \<times> employee) list \<Rightarrow> bool" where
  "stored_under_id m = list_all (\<lambda>kv. emp_id (snd kv) = Some (fst kv)) m"

definition keyed_by_id :: "(string \<times> employee) list \<Rightarrow> bool" where
  "keyed_by_id m = list_all (\<lambda>kv. emp_id (snd kv) = Some (fst kv) \<and> fst kv \<noteq> []) m"

definition index_inv :: "service \<Rightarrow> bool" where
  "index_inv s = (distinct (map fst (employees s)) \<and> keyed_by_id (employees s))"

subsection \<open>Sample records\<close>

definition emp_ann :: employee where
  "emp_ann = \<lparr>emp_id = Some ''e1'', fullName = ''Ann'', avatar = None, department = ''Eng'',
     birthDate = ''1990-01-01'', salary = 2000\<rparr>"

definition emp_ann2 :: employee where
  "emp_ann2 = emp_ann\<lparr>fullName := ''Ann Two'', department := ''Sales''\<rparr>"

definition emp_bob :: employee where
  "emp_bob = \<lparr>emp_id = Some ''e2'', fullName = ''Bob'', avatar = Some ''http://example.com/bob.jpg'',
     department = ''Sales'', birthDate = ''1985-05-05'', salary = 1500\<rparr>"

definition emp_bad :: employee where
  "emp_bad = \<lparr>emp_id = Some [], fullName = ''Bad'', avatar = None, department = ''Eng'',
     birthDate = ''1970-01-01'', salary = 0\<rparr>"

definition emp_joe :: employee where
  "emp_joe = \<lparr>emp_id = None, fullName = ''Joe'', avatar = None, department = ''Sales'',
     birthDate = ''1990-01-01'', salary = 1000\<rparr>"

definition patch_none :: employee_patch where
  "patch_none = \<lparr>p_id = None, p_fullName = None, p_avatar = None, p_department = None,
     p_birthDate = None, p_salary = None\<rparr>"

definition patch_name :: employee_patch where
  "patch_name = patch_none\<lparr>p_fullName := Some ''Jane Doe''\<rparr>"

definition patch_id :: employee_patch where
  "patch_id = patch_none\<lparr>p_id := Some (Some ''e2'')\<rparr>"

definition uuid_eve :: string where
  "uuid_eve = ''110e8400-e29b-41d4-a716-446655440000''"

definition emp_eve :: employee where
  "emp_eve = \<lparr>emp_id = Some uuid_eve, fullName = ''Eve'', avatar = None, department = ''Eng'',
     birthDate = ''1992-02-02'', salary = 3000\<rparr>"

definition svc_eve :: service where
  "svc_eve = EmployeesServiceMap False [emp_eve]"

definition svc_empty :: service where
  "svc_empty = EmployeesServiceMap False []"

definition svc_two :: service where
  "svc_two = EmployeesServiceMap False [emp_bad, emp_ann, emp_bob]"

lemmas sample_defs =
  emp_ann_def emp_ann2_def emp_bob_def emp_bad_def emp_joe_def patch_none_def patch_name_def patch_id_def
  svc_empty_def svc_two_def uuid_eve_def emp_eve_def svc_eve_def

lemmas method_defs =
  EmployeesServiceMap_def fillEmployeeMap_def addEmployee_def getAll_def getById_def
  Object_assign_def updateEmployee_def deleteEmployee_def toArray_def isUpdated_def
  map_get_def map_has_def map_delete_def map_values_def index_inv_def keyed_by_id_def
  stored_under_id_def Let_def

section \<open>Properties\<close>

subsection \<open>The Map operations\<close>

lemma map_get_map_set: "map_get k' (map_set k v m) = (if k' = k then Some v else map_get k' m)"
  by (induction m) (auto simp: map_get_def)

lemma map_set_absent: "map_get k m = None \<Longrightarrow> map_set k v m = m @ [(k, v)]"
  by (induction m) (auto simp: map_get_def split: if_splits)

lemma map_get_None_iff: "(map_get k m = None) = (k \<notin> fst ` set m)"
  by (simp add: map_get_def map_of_eq_None_iff)

lemma map_get_map_delete: "map_get k' (map_delete k m) = (if k' = k then None else map_get k' m)"
  by (induction m) (auto simp: map_get_def map_delete_def)

lemma map_get_Some_mem: "map_get k m = Some v \<Longrightarrow> (k, v) \<in> set m"
  by (simp add: map_get_def map_of_SomeD)

lemma keys_map_set: "fst ` set (map_set k v m) = insert k (fst ` set m)"
proof -
  have "(k' \<in> fst ` set (map_set k v m)) = (k' \<in> insert k (fst ` set m))" for k'
    using map_get_map_set [of k' k v m] map_get_None_iff [of k' "map_set k v m"]
      map_get_None_iff [of k' m]
    by (cases "k' = k") auto
  then show ?thesis by blast
qed

lemma map_set_mem: "(a, b) \<in> set (map_set k v m) \<Longrightarrow> (a = k \<and> b = v) \<or> (a, b) \<in> set m"
  by (induction m) (auto split: if_splits)

lemma distinct_map_set: "distinct (map fst m) \<Longrightarrow> distinct (map fst (map_set k v m))"
proof (induction m)
  case Nil
  then show ?case by simp
next
  case (Cons kv m)
  obtain k' v' where kv: "kv = (k', v')" by (cases kv)
  show ?case
  proof (cases "k' = k")
    case True
    with Cons.prems kv show ?thesis by simp
  next
    case False
    from Cons.prems kv have "k' \<notin> fst ` set m" "distinct (map fst m)" by simp_all
    with False Cons.IH kv show ?thesis
      using keys_map_set [of k v m] by simp
  qed
qed

lemma keyed_map_set:
  "keyed_by_id m \<Longrightarrow> emp_id v = Some k \<Longrightarrow> k \<noteq> [] \<Longrightarrow> keyed_by_id (map_set k v m)"
  by (induction m) (auto simp: keyed_by_id_def)

lemma keyed_map_delete: "keyed_by_id m \<Longrightarrow> keyed_by_id (map_delete k m)"
  by (induction m) (auto simp: keyed_by_id_def map_delete_def)

lemma distinct_map_delete: "distinct (map fst m) \<Longrightarrow> distinct (map fst (map_delete k m))"
  by (simp add: map_delete_def distinct_map_filter)

subsection \<open>The load loop\<close>

lemma keyed_mem: "keyed_by_id m \<Longrightarrow> (k, e) \<in> set m \<Longrightarrow> emp_id e = Some k \<and> k \<noteq> []"
  by (auto simp: keyed_by_id_def list_all_iff)

lemma stored_under_id_mem: "stored_under_id m \<Longrightarrow> (k, e) \<in> set m \<Longrightarrow> emp_id e = Some k"
  by (auto simp: stored_under_id_def list_all_iff)

lemma keyed_by_id_stored: "keyed_by_id m \<Longrightarrow> stored_under_id m"
  by (simp add: keyed_by_id_def stored_under_id_def list_all_iff)

lemma fill_loop_inv:
  "distinct (map fst m) \<Longrightarrow> keyed_by_id m \<Longrightarrow>
   distinct (map fst (fill_loop es m)) \<and> keyed_by_id (fill_loop es m)"
proof (induction es arbitrary: m)
  case Nil
  then show ?case by simp
next
  case (Cons e es)
  show ?case
  proof (cases "emp_id e")
    case None
    with Cons show ?thesis by simp
  next
    case (Some k)
    show ?thesis
    proof (cases "k = []")
      case True
      with Some Cons show ?thesis by simp
    next
      case False
      with Some Cons.prems have "distinct (map fst (map_set k e m))" "keyed_by_id (map_set k e m)"
        by (simp_all add: distinct_map_set keyed_map_set)
      with Cons.IH Some False show ?thesis by simp
    qed
  qed
qed

lemma fill_loop_mem:
  "(a, b) \<in> set (fill_loop es m) \<Longrightarrow>
   (a, b) \<in> set m \<or> (b \<in> set es \<and> truthy (emp_id b))"
proof (induction es arbitrary: m)
  case Nil
  then show ?case by simp
next
  case (Cons e es)
  show ?case
  proof (cases "truthy (emp_id e)")
    case True
    with Cons.prems have "(a, b) \<in> set (fill_loop es (map_set (the (emp_id e)) e m))"
      by simp
    then have "(a, b) \<in> set (map_set (the (emp_id e)) e m) \<or> (b \<in> set es \<and> truthy (emp_id b))"
      by (rule Cons.IH)
    with True map_set_mem [of a b "the (emp_id e)" e m] show ?thesis by auto
  next
    case False
    with Cons.prems have "(a, b) \<in> set (fill_loop es m)" by simp
    then have "(a, b) \<in> set m \<or> (b \<in> set es \<and> truthy (emp_id b))"
      by (rule Cons.IH)
    then show ?thesis by auto
  qed
qed

lemma fill_loop_roundtrip:
  "keyed_by_id m \<Longrightarrow> distinct (map fst (acc @ m)) \<Longrightarrow> fill_loop (map snd m) acc = acc @ m"
proof (induction m arbitrary: acc)
  case Nil
  then show ?case by simp
next
  case (Cons kv m)
  obtain k e where kv: "kv = (k, e)" by (cases kv)
  from Cons.prems(1) kv have id: "emp_id e = Some k" "k \<noteq> []" and keyed: "keyed_by_id m"
    by (simp_all add: keyed_by_id_def)
  from Cons.prems(2) kv have "map_get k acc = None"
    by (auto simp: map_get_None_iff)
  then have set: "map_set k e acc = acc @ [(k, e)]"
    by (rule map_set_absent)
  from Cons.prems(2) kv have "distinct (map fst ((acc @ [(k, e)]) @ m))" by simp
  with keyed have "fill_loop (map snd m) (acc @ [(k, e)]) = (acc @ [(k, e)]) @ m"
    by (rule Cons.IH)
  with id set kv show ?case by simp
qed

subsection \<open>Preservation of the invariant, operation by operation\<close>

lemma index_inv_fillEmployeeMap: "index_inv (fillEmployeeMap emps s)"
  using fill_loop_inv [of "[]" emps]
  by (simp add: index_inv_def fillEmployeeMap_def keyed_by_id_def)

lemma fillEmployeeMap_skips:
  "e \<in> set emps \<Longrightarrow> \<not> truthy (emp_id e) \<Longrightarrow> e \<notin> set (toArray (fillEmployeeMap emps s))"
proof
  assume e: "e \<in> set emps" and nt: "\<not> truthy (emp_id e)"
    and "e \<in> set (toArray (fillEmployeeMap emps s))"
  then obtain k where mem: "(k, e) \<in> set (fill_loop emps [])"
    by (auto simp: toArray_def map_values_def fillEmployeeMap_def)
  have "keyed_by_id (fill_loop emps [])"
    using fill_loop_inv [of "[]" emps] by (simp add: keyed_by_id_def)
  from this mem have "emp_id e = Some k \<and> k \<noteq> []" by (rule keyed_mem)
  with nt show False by simp
qed

lemma index_inv_addEmployee:
  "index_inv s \<Longrightarrow> nullish (emp_id empl) uuid \<noteq> [] \<Longrightarrow> index_inv (snd (addEmployee uuid empl s))"
  by (simp add: addEmployee_def index_inv_def Let_def distinct_map_set keyed_map_set)

lemma index_inv_updateEmployee:
  assumes inv: "index_inv s" and p: "p_id p = None \<or> p_id p = Some (Some k)"
  shows "index_inv (snd (updateEmployee k p s))"
proof (cases "map_get k (employees s)")
  case None
  with inv show ?thesis by (simp add: updateEmployee_def getById_def)
next
  case (Some e)
  then have "(k, e) \<in> set (employees s)" by (rule map_get_Some_mem)
  with inv have id: "emp_id e = Some k \<and> k \<noteq> []"
    by (auto simp: index_inv_def dest: keyed_mem)
  with p have "emp_id (Object_assign e p) = Some k"
    by (auto simp: Object_assign_def)
  with inv id Some show ?thesis
    by (simp add: updateEmployee_def getById_def index_inv_def Let_def distinct_map_set keyed_map_set)
qed

lemma index_inv_deleteEmployee: "index_inv s \<Longrightarrow> index_inv (snd (deleteEmployee k s))"
  by (simp add: deleteEmployee_def getById_def index_inv_def distinct_map_delete keyed_map_delete
      split: option.splits)

text \<open>
  Every operation but an \<open>update\<close> whose patch carries another \<open>id\<close> keeps the records
  stored under their own \<open>id\<close>, the empty one included.
\<close>

lemma stored_map_set:
  "stored_under_id m \<Longrightarrow> emp_id v = Some k \<Longrightarrow> stored_under_id (map_set k v m)"
  by (induction m) (auto simp: stored_under_id_def)

lemma stored_under_id_fillEmployeeMap: "stored_under_id (employees (fillEmployeeMap emps s))"
  using index_inv_fillEmployeeMap [of emps s] by (simp add: index_inv_def keyed_by_id_stored)

lemma stored_under_id_addEmployee:
  "stored_under_id (employees s) \<Longrightarrow> stored_under_id (employees (snd (addEmployee uuid empl s)))"
  by (simp add: addEmployee_def Let_def stored_map_set)

lemma stored_under_id_updateEmployee:
  assumes st: "stored_under_id (employees s)" and p: "p_id p = None \<or> p_id p = Some (Some k)"
  shows "stored_under_id (employees (snd (updateEmployee k p s)))"
proof (cases "map_get k (employees s)")
  case None
  with st show ?thesis by (simp add: updateEmployee_def getById_def)
next
  case (Some e)
  then have "(k, e) \<in> set (employees s)" by (rule map_get_Some_mem)
  with st have "emp_id e = Some k" by (rule stored_under_id_mem)
  with p have "emp_id (Object_assign e p) = Some k"
    by (auto simp: Object_assign_def)
  with st Some show ?thesis
    by (simp add: updateEmployee_def getById_def Let_def stored_map_set)
qed

lemma stored_under_id_deleteEmployee:
  "stored_under_id (employees s) \<Longrightarrow> stored_under_id (employees (snd (deleteEmployee k s)))"
  by (simp add: deleteEmployee_def getById_def stored_under_id_def map_delete_def list_all_iff
      split: option.splits)

lemma updateEmployee_keeps_id:
  "map_get k (employees s) = Some e \<Longrightarrow> emp_id e = Some k \<Longrightarrow> p_id p = None \<Longrightarrow>
   \<exists>r. fst (updateEmployee k p s) = Inr r \<and> emp_id r = Some k"
  by (simp add: updateEmployee_def getById_def Object_assign_def Let_def)

subsection \<open>What holds while every record is stored under its own id\<close>

text \<open>
  A load establishes the invariant whatever it is given, and a record without a truthy
  \<open>id\<close> is not among the stored ones afterwards. From a state with the invariant,
  \<open>addEmployee\<close> keeps it when the identity it adopts is not empty, \<open>updateEmployee\<close>
  keeps it when the patch has no \<open>id\<close> or the \<open>id\<close> of the key, and \<open>deleteEmployee\<close>
  keeps it.
\<close>

lemma index_inv_preserved:
  "index_inv (fillEmployeeMap emps s0) \<and>
   (\<forall>e \<in> set emps. \<not> truthy (emp_id e) \<longrightarrow> e \<notin> set (toArray (fillEmployeeMap emps s0))) \<and>
   (index_inv s \<longrightarrow>
      (nullish (emp_id empl) uuid \<noteq> [] \<longrightarrow> index_inv (snd (addEmployee uuid empl s))) \<and>
      (p_id p = None \<or> p_id p = Some (Some k) \<longrightarrow> index_inv (snd (updateEmployee k p s))) \<and>
      index_inv (snd (deleteEmployee k' s)))"
  using index_inv_fillEmployeeMap fillEmployeeMap_skips index_inv_addEmployee
    index_inv_updateEmployee index_inv_deleteEmployee
  by blast

lemma index_inv_preserved_witness:
  "index_inv svc_two \<and> nullish (emp_id emp_joe) ''u1'' \<noteq> [] \<and> p_id patch_name = None \<and>
   emp_bad \<in> set [emp_bad, emp_ann, emp_bob] \<and> \<not> truthy (emp_id emp_bad) \<and>
   index_inv (fillEmployeeMap [emp_bad, emp_ann, emp_bob] svc_empty) \<and>
   emp_bad \<notin> set (toArray (fillEmployeeMap [emp_bad, emp_ann, emp_bob] svc_empty)) \<and>
   index_inv (snd (addEmployee ''u1'' emp_joe svc_two)) \<and>
   index_inv (snd (updateEmployee ''e1'' patch_name svc_two)) \<and>
   index_inv (snd (deleteEmployee ''e2'' svc_two))"
proof -
  have h: "index_inv svc_two \<and> nullish (emp_id emp_joe) ''u1'' \<noteq> [] \<and>
      p_id patch_name = None \<and> emp_bad \<in> set [emp_bad, emp_ann, emp_bob] \<and>
      \<not> truthy (emp_id emp_bad)"
    by (simp add: sample_defs method_defs)
  with index_inv_preserved [where emps = "[emp_bad, emp_ann, emp_bob]" and ?s0.0 = svc_empty
      and s = svc_two and empl = emp_joe and uuid = "''u1''" and p = patch_name
      and k = "''e1''" and k' = "''e2''"]
  show ?thesis by blast
qed

text \<open>
  In a state with the invariant, loading what \<open>toArray\<close> returns gives the same state
  back: the same keys in the same order, the same records, the same flag.
\<close>

lemma reload_toArray_roundtrip:
  assumes "index_inv s"
  shows "fillEmployeeMap (toArray s) s = s"
proof -
  from assms have "fill_loop (map snd (employees s)) [] = [] @ employees s"
    by (intro fill_loop_roundtrip) (simp_all add: index_inv_def)
  then show ?thesis
    by (simp add: fillEmployeeMap_def toArray_def map_values_def)
qed

lemma reload_toArray_roundtrip_witness:
  "index_inv svc_two \<and> fillEmployeeMap (toArray svc_two) svc_two = svc_two"
proof -
  have h: "index_inv svc_two"
    by (simp add: sample_defs method_defs)
  from h reload_toArray_roundtrip [OF h] show ?thesis by blast
qed

text \<open>
  For a key that is in the map, \<open>deleteEmployee\<close> returns the record stored under it and
  removes the entry, and a second call fails and changes nothing. That no record with
  that \<open>id\<close> is left needs the records to be stored under their own \<open>id\<close>.
\<close>

lemma deleteEmployee_removes:
  assumes present: "map_get k (employees s) = Some r"
  shows "deleteEmployee k s =
           (Inr r, s\<lparr>employees := map_delete k (employees s), isUpdated_fld := True\<rparr>) \<and>
         \<not> map_has k (employees (snd (deleteEmployee k s))) \<and>
         getAll None (snd (deleteEmployee k s))
           = map snd (filter (\<lambda>kv. fst kv \<noteq> k) (employees s)) \<and>
         (stored_under_id (employees s) \<longrightarrow>
            (\<forall>e \<in> set (getAll None (snd (deleteEmployee k s))). emp_id e \<noteq> Some k)) \<and>
         deleteEmployee k (snd (deleteEmployee k s))
           = (Inl (NotFoundError k), snd (deleteEmployee k s))"
proof -
  from present have del: "deleteEmployee k s =
           (Inr r, s\<lparr>employees := map_delete k (employees s), isUpdated_fld := True\<rparr>)"
    by (simp add: deleteEmployee_def getById_def)
  have gone: "map_get k (map_delete k (employees s)) = None"
    by (simp add: map_get_map_delete)
  have all: "getAll None (snd (deleteEmployee k s))
           = map snd (filter (\<lambda>kv. fst kv \<noteq> k) (employees s))"
    by (simp add: del getAll_def map_values_def map_delete_def)
  have field: "\<forall>e \<in> set (getAll None (snd (deleteEmployee k s))). emp_id e \<noteq> Some k"
    if keyed: "stored_under_id (employees s)"
  proof
    fix e
    assume "e \<in> set (getAll None (snd (deleteEmployee k s)))"
    with all obtain k' where mem: "(k', e) \<in> set (employees s)" and ne: "k' \<noteq> k"
      by auto
    from keyed mem have "emp_id e = Some k'" by (rule stored_under_id_mem)
    with ne show "emp_id e \<noteq> Some k" by simp
  qed
  from gone have again: "deleteEmployee k (snd (deleteEmployee k s))
           = (Inl (NotFoundError k), snd (deleteEmployee k s))"
    by (simp add: del deleteEmployee_def [of k "_\<lparr>employees := _, isUpdated_fld := _\<rparr>"] getById_def)
  from gone have "\<not> map_has k (employees (snd (deleteEmployee k s)))"
    by (simp add: del map_has_def)
  with del all field again show ?thesis by blast
qed

lemma deleteEmployee_removes_witness:
  "map_get ''e1'' (employees svc_two) = Some emp_ann \<and> stored_under_id (employees svc_two) \<and>
   deleteEmployee ''e1'' svc_two =
     (Inr emp_ann,
      svc_two\<lparr>employees := map_delete ''e1'' (employees svc_two), isUpdated_fld := True\<rparr>) \<and>
   \<not> map_has ''e1'' (employees (snd (deleteEmployee ''e1'' svc_two))) \<and>
   Some ''e1'' \<notin> set (map emp_id (getAll None (snd (deleteEmployee ''e1'' svc_two)))) \<and>
   deleteEmployee ''e1'' (snd (deleteEmployee ''e1'' svc_two))
     = (Inl (NotFoundError ''e1''), snd (deleteEmployee ''e1'' svc_two))"
proof -
  have h: "map_get ''e1'' (employees svc_two) = Some emp_ann"
    and k: "stored_under_id (employees svc_two)"
    by (simp_all add: sample_defs method_defs)
  from deleteEmployee_removes [OF h] k
  have "\<forall>e \<in> set (getAll None (snd (deleteEmployee ''e1'' svc_two))). emp_id e \<noteq> Some ''e1''"
    by blast
  then have "Some ''e1'' \<notin> set (map emp_id (getAll None (snd (deleteEmployee ''e1'' svc_two))))"
    by force
  with deleteEmployee_removes [OF h] h k show ?thesis by blast
qed

section \<open>The claims\<close>

subsection \<open>C1: update and the identity field\<close>

text \<open>
  C1 says that \<open>update(id, patch)\<close> returns a record whose \<open>id\<close> field still equals
  \<open>id\<close>, also when the patch carries another \<open>id\<close>. The method does keep the record
  under its key, but \<open>Object.assign\<close> copies the patch's \<open>id\<close> into it: updating
  \<open>e1\<close> with the patch \<open>{id: "e2"}\<close> returns, and stores under the key \<open>e1\<close>, a
  record whose \<open>id\<close> is \<open>e2\<close>.
\<close>

theorem updateEmployee_overwrites_id:
  "updateEmployee ''e1'' patch_id (EmployeesServiceMap False [emp_ann]) =
     (Inr (emp_ann\<lparr>emp_id := Some ''e2''\<rparr>),
      \<lparr>employees = [(''e1'', emp_ann\<lparr>emp_id := Some ''e2''\<rparr>)], isUpdated_fld = True\<rparr>)"
  by (simp add: sample_defs method_defs)

text \<open>
  What follows from it: the record is no longer stored under its own \<open>id\<close>, and a reload
  of the snapshot stores it under the other key, where it replaces the record that was
  there.
\<close>

lemma updateEmployee_id_patch_leaves_invariant:
  "index_inv svc_two \<and> \<not> index_inv (snd (updateEmployee ''e1'' patch_id svc_two))"
  by (simp add: sample_defs method_defs)

lemma updateEmployee_id_patch_then_reload:
  "map fst (employees (fillEmployeeMap (toArray (snd (updateEmployee ''e1'' patch_id svc_two)))
      (snd (updateEmployee ''e1'' patch_id svc_two)))) = [''e2'']"
  by (simp add: sample_defs method_defs)

subsection \<open>C2: the invariant\<close>

text \<open>
  C2 says that every operation keeps every stored record under a key equal to its own,
  non-empty \<open>id\<close>. \<open>addEmployee\<close> does not: an explicit empty \<open>id\<close> is not null, so
  \<open>??\<close> keeps it, and the call succeeds and stores the record under the empty key,
  the very record that \<open>_fillEmployeeMap\<close> skips as one without \<open>id\<close>. (Nor does
  \<open>updateEmployee\<close> with a patch that carries another \<open>id\<close>, as shown under C1.)
\<close>

theorem addEmployee_empty_id_breaks_inv:
  "index_inv (EmployeesServiceMap False [emp_ann]) \<and>
   addEmployee ''u1'' emp_bad (EmployeesServiceMap False [emp_ann]) =
     (Inr emp_bad, \<lparr>employees = [(''e1'', emp_ann), ([], emp_bad)], isUpdated_fld = True\<rparr>) \<and>
   \<not> index_inv (snd (addEmployee ''u1'' emp_bad (EmployeesServiceMap False [emp_ann])))"
  by (simp add: sample_defs method_defs)

subsection \<open>C3: reload of the snapshot\<close>

text \<open>
  C3 says that, in every reachable state, loading the snapshot leaves the records as they
  were. After the construction from an empty file and the \<open>addEmployee\<close> of a record
  with an explicit empty \<open>id\<close>, the index holds that record, its snapshot holds it too,
  and the load of the snapshot holds none: \<open>_fillEmployeeMap\<close> skips what
  \<open>addEmployee\<close> accepted. (The other way there is the \<open>updateEmployee\<close> of C1, which
  makes the load store a record under another key.)
\<close>

theorem reload_drops_empty_id:
  "employees (snd (addEmployee ''u1'' emp_bad svc_empty)) = [([], emp_bad)] \<and>
   toArray (snd (addEmployee ''u1'' emp_bad svc_empty)) = [emp_bad] \<and>
   employees (fillEmployeeMap (toArray (snd (addEmployee ''u1'' emp_bad svc_empty)))
     (snd (addEmployee ''u1'' emp_bad svc_empty))) = []"
  by (simp add: sample_defs method_defs)

subsection \<open>C4: add and AlreadyExists\<close>

text \<open>
  C4: \<open>add\<close> fails exactly when the key it would use (the given \<open>id\<close>, or else the
  generated one) is in the map; the error is then \<open>AlreadyExists\<close> of that key and the
  state is the one before. Two \<open>add\<close>s with the same explicit \<open>id\<close>: the second fails and
  changes nothing, and when the key was free the map is the old one followed by the first
  record.
\<close>

theorem addEmployee_AlreadyExists:
  "((\<exists>err. fst (addEmployee uuid empl s) = Inl err) \<longleftrightarrow>
      map_has (nullish (emp_id empl) uuid) (employees s)) \<and>
   (map_has (nullish (emp_id empl) uuid) (employees s) \<longrightarrow>
      addEmployee uuid empl s = (Inl (AlreadyExistsError (nullish (emp_id empl) uuid)), s)) \<and>
   (emp_id e1 = Some k \<and> emp_id e2 = Some k \<longrightarrow>
      addEmployee u2 e2 (snd (addEmployee u1 e1 s))
        = (Inl (AlreadyExistsError k), snd (addEmployee u1 e1 s)) \<and>
      (\<not> map_has k (employees s) \<longrightarrow>
         employees (snd (addEmployee u1 e1 s)) = employees s @ [(k, e1)]))"
proof (intro conjI impI)
  show "(\<exists>err. fst (addEmployee uuid empl s) = Inl err) \<longleftrightarrow>
      map_has (nullish (emp_id empl) uuid) (employees s)"
    by (simp add: addEmployee_def Let_def)
next
  assume "map_has (nullish (emp_id empl) uuid) (employees s)"
  then show "addEmployee uuid empl s = (Inl (AlreadyExistsError (nullish (emp_id empl) uuid)), s)"
    by (simp add: addEmployee_def Let_def)
next
  assume ids: "emp_id e1 = Some k \<and> emp_id e2 = Some k"
  then have "map_has k (employees (snd (addEmployee u1 e1 s)))"
    by (simp add: addEmployee_def Let_def map_has_def map_get_map_set)
  with ids show "addEmployee u2 e2 (snd (addEmployee u1 e1 s))
        = (Inl (AlreadyExistsError k), snd (addEmployee u1 e1 s))"
    by (simp add: addEmployee_def [of u2] Let_def)
next
  assume ids: "emp_id e1 = Some k \<and> emp_id e2 = Some k" and fresh: "\<not> map_has k (employees s)"
  from ids have "e1\<lparr>emp_id := Some k\<rparr> = e1" by simp
  with ids fresh show "employees (snd (addEmployee u1 e1 s)) = employees s @ [(k, e1)]"
    by (simp add: addEmployee_def Let_def map_has_def map_set_absent)
qed

theorem addEmployee_AlreadyExists_witness:
  "map_has (nullish (emp_id emp_ann) ''u1'') (employees svc_two) \<and>
   nullish (emp_id emp_ann) ''u1'' = ''e1'' \<and>
   addEmployee ''u1'' emp_ann svc_two
     = (Inl (AlreadyExistsError (nullish (emp_id emp_ann) ''u1'')), svc_two) \<and>
   emp_id emp_ann = Some ''e1'' \<and> emp_id emp_ann2 = Some ''e1'' \<and>
   \<not> map_has ''e1'' (employees svc_empty) \<and> employees svc_empty = [] \<and>
   addEmployee ''u2'' emp_ann2 (snd (addEmployee ''u1'' emp_ann svc_empty))
     = (Inl (AlreadyExistsError ''e1''), snd (addEmployee ''u1'' emp_ann svc_empty)) \<and>
   employees (snd (addEmployee ''u1'' emp_ann svc_empty)) = employees svc_empty @ [(''e1'', emp_ann)]"
proof -
  have h: "map_has (nullish (emp_id emp_ann) ''u1'') (employees svc_two) \<and>
      nullish (emp_id emp_ann) ''u1'' = ''e1'' \<and>
      emp_id emp_ann = Some ''e1'' \<and> emp_id emp_ann2 = Some ''e1'' \<and>
      \<not> map_has ''e1'' (employees svc_empty) \<and> employees svc_empty = []"
    by (simp add: sample_defs method_defs)
  with addEmployee_AlreadyExists [where uuid = "''u1''" and empl = emp_ann and s = svc_two]
    addEmployee_AlreadyExists [where s = svc_empty and ?e1.0 = emp_ann and ?e2.0 = emp_ann2
      and k = "''e1''" and ?u1.0 = "''u1''" and ?u2.0 = "''u2''"]
  show ?thesis by blast
qed

subsection \<open>C5: update, delete and NotFound\<close>

text \<open>
  C5: \<open>update\<close> and \<open>delete\<close> fail exactly when the key is not in the map; the error is
  then \<open>NotFound\<close> of that key and the state (map and flag) is the one before.
\<close>

theorem NotFound_iff_absent:
  "((\<exists>err. fst (updateEmployee k p s) = Inl err) \<longleftrightarrow> \<not> map_has k (employees s)) \<and>
   ((\<exists>err. fst (deleteEmployee k s) = Inl err) \<longleftrightarrow> \<not> map_has k (employees s)) \<and>
   (\<not> map_has k (employees s) \<longrightarrow>
      updateEmployee k p s = (Inl (NotFoundError k), s) \<and>
      deleteEmployee k s = (Inl (NotFoundError k), s))"
  by (cases "map_get k (employees s)")
    (simp_all add: updateEmployee_def deleteEmployee_def getById_def map_has_def Let_def)

theorem NotFound_iff_absent_witness:
  "\<not> map_has ''e9'' (employees svc_two) \<and>
   updateEmployee ''e9'' patch_name svc_two = (Inl (NotFoundError ''e9''), svc_two) \<and>
   deleteEmployee ''e9'' svc_two = (Inl (NotFoundError ''e9''), svc_two) \<and>
   map_has ''e1'' (employees svc_two) \<and>
   \<not> (\<exists>err. fst (updateEmployee ''e1'' patch_name svc_two) = Inl err) \<and>
   \<not> (\<exists>err. fst (deleteEmployee ''e1'' svc_two) = Inl err)"
proof -
  have h: "\<not> map_has ''e9'' (employees svc_two) \<and> map_has ''e1'' (employees svc_two)"
    by (simp add: sample_defs method_defs)
  with NotFound_iff_absent [of "''e9''" patch_name svc_two]
    NotFound_iff_absent [of "''e1''" patch_name svc_two]
  show ?thesis by blast
qed

subsection \<open>C6: the department filter\<close>

text \<open>
  C6, as amended: without a department \<open>getAll\<close> returns every stored record, and with a
  department that is not the empty string it returns exactly the stored records whose
  \<open>department\<close> is that string, character by character, in the order of the map.
\<close>

theorem getAll_filters_department:
  "getAll None s = map_values (employees s) \<and>
   (d \<noteq> [] \<longrightarrow>
      getAll (Some d) s = filter (\<lambda>empl. department empl = d) (map_values (employees s)))"
  by (simp add: getAll_def)

theorem getAll_filters_department_witness:
  "''Sales'' \<noteq> [] \<and> ''sales'' \<noteq> [] \<and>
   getAll None svc_two = [emp_ann, emp_bob] \<and>
   getAll (Some ''Sales'') svc_two = [emp_bob] \<and>
   getAll (Some ''sales'') svc_two = []"
proof -
  have h: "''Sales'' \<noteq> [] \<and> ''sales'' \<noteq> [] \<and>
      map_values (employees svc_two) = [emp_ann, emp_bob] \<and>
      department emp_ann = ''Eng'' \<and> department emp_bob = ''Sales''"
    by (simp add: sample_defs method_defs)
  with getAll_filters_department [of svc_two "''Sales''"]
    getAll_filters_department [of svc_two "''sales''"]
  show ?thesis by simp
qed

text \<open>
  C6 as it is written, for every department string, fails at the empty string: the
  filter is skipped and records of other departments are returned.
\<close>

theorem getAll_empty_department_counterexample:
  "getAll (Some []) svc_two = [emp_ann, emp_bob] \<and>
   department emp_ann \<noteq> [] \<and> department emp_bob \<noteq> []"
  by (simp add: sample_defs method_defs)

subsection \<open>C7: add without an id\<close>




text \<open>
  The condition on the records already stored matters only after the \<open>updateEmployee\<close>
  of C1: there a record can carry an \<open>id\<close> that is not a key, and an \<open>addEmployee\<close>
  that is given this identifier succeeds, after which two records carry it.
\<close>

lemma addEmployee_generated_id_after_id_patch:
  "fst (addEmployee ''e2'' emp_joe
      (snd (updateEmployee ''e1'' patch_id (EmployeesServiceMap False [emp_ann]))))
     = Inr (emp_joe\<lparr>emp_id := Some ''e2''\<rparr>) \<and>
   getAll None (snd (addEmployee ''e2'' emp_joe
      (snd (updateEmployee ''e1'' patch_id (EmployeesServiceMap False [emp_ann])))))
     = [emp_ann\<lparr>emp_id := Some ''e2''\<rparr>, emp_joe\<lparr>emp_id := Some ''e2''\<rparr>]"
  by (simp add: sample_defs method_defs)

subsection \<open>C8: delete\<close>

text \<open>
  C8 says that after \<open>delete(id)\<close> no record with that \<open>id\<close> is in \<open>getAll()\<close>. The
  method removes the entry of the key and returns its record, and a second call fails
  (lemma \<open>deleteEmployee_removes\<close>); but once \<open>updateEmployee\<close> has given the record
  under \<open>e1\<close> the \<open>id\<close> \<open>e2\<close> (C1), the \<open>delete\<close> of \<open>e2\<close> returns the other
  record and \<open>getAll()\<close> still has a record whose \<open>id\<close> is \<open>e2\<close>.
\<close>

theorem deleteEmployee_leaves_record_with_id:
  "fst (deleteEmployee ''e2'' (snd (updateEmployee ''e1'' patch_id svc_two))) = Inr emp_bob \<and>
   getAll None (snd (deleteEmployee ''e2'' (snd (updateEmployee ''e1'' patch_id svc_two))))
     = [emp_ann\<lparr>emp_id := Some ''e2''\<rparr>] \<and>
   emp_id (emp_ann\<lparr>emp_id := Some ''e2''\<rparr>) = Some ''e2''"
  by (simp add: sample_defs method_defs)

subsection \<open>C9: the flag\<close>

text \<open>
  C9: after an \<open>add\<close>, an \<open>update\<close> or a \<open>delete\<close> that succeeded, \<open>isUpdated()\<close>
  returns true; \<open>isUpdated()\<close> returns the flag and leaves the state as it was.
\<close>

theorem mutations_set_isUpdated:
  "((\<exists>r. fst (addEmployee uuid empl s) = Inr r) \<longrightarrow>
      fst (isUpdated (snd (addEmployee uuid empl s)))) \<and>
   ((\<exists>r. fst (updateEmployee k p s) = Inr r) \<longrightarrow>
      fst (isUpdated (snd (updateEmployee k p s)))) \<and>
   ((\<exists>r. fst (deleteEmployee k s) = Inr r) \<longrightarrow>
      fst (isUpdated (snd (deleteEmployee k s)))) \<and>
   isUpdated s = (isUpdated_fld s, s)"
  by (cases "map_get k (employees s)")
    (simp_all add: addEmployee_def updateEmployee_def deleteEmployee_def getById_def
      isUpdated_def Let_def)

theorem mutations_set_isUpdated_witness:
  "\<not> fst (isUpdated svc_two) \<and> snd (isUpdated svc_two) = svc_two \<and>
   (\<exists>r. fst (addEmployee ''u1'' emp_joe svc_two) = Inr r) \<and>
   fst (isUpdated (snd (addEmployee ''u1'' emp_joe svc_two))) \<and>
   (\<exists>r. fst (updateEmployee ''e1'' patch_name svc_two) = Inr r) \<and>
   fst (isUpdated (snd (updateEmployee ''e1'' patch_name svc_two))) \<and>
   (\<exists>r. fst (deleteEmployee ''e1'' svc_two) = Inr r) \<and>
   fst (isUpdated (snd (deleteEmployee ''e1'' svc_two)))"
proof -
  have h: "\<not> isUpdated_fld svc_two \<and>
      (\<exists>r. fst (addEmployee ''u1'' emp_joe svc_two) = Inr r) \<and>
      (\<exists>r. fst (updateEmployee ''e1'' patch_name svc_two) = Inr r) \<and>
      (\<exists>r. fst (deleteEmployee ''e1'' svc_two) = Inr r)"
    by (simp add: sample_defs method_defs)
  with mutations_set_isUpdated [of "''u1''" emp_joe svc_two "''e1''" patch_name]
  show ?thesis by simp
qed

subsection \<open>C10: the empty department\<close>

text \<open>
  C10: \<open>getAll\<close> with the empty string returns what \<open>getAll\<close> without an argument
  returns, every stored record; the filter is applied only for a department that is not
  empty.
\<close>

theorem getAll_empty_department:
  "getAll (Some []) s = getAll None s \<and>
   getAll (Some d) s =
     (if d = [] then toArray s else filter (\<lambda>empl. department empl = d) (toArray s))"
  by (simp add: getAll_def toArray_def)

theorem getAll_empty_department_witness:
  "getAll (Some []) svc_two = [emp_ann, emp_bob] \<and> getAll None svc_two = [emp_ann, emp_bob]"
proof -
  have h: "toArray svc_two = [emp_ann, emp_bob]"
    by (simp add: sample_defs method_defs)
  with getAll_empty_department [of svc_two "[]"] show ?thesis by metis
qed

end
